theory Spec2Isabelle
  imports Main "HOL-Library.Word"
begin

unbundle bit_operations_syntax

section \<open>The TSI driver of K65TWR_TSI.c\<close>

subsection \<open>Types\<close>

type_synonym INT8U = "8 word"
type_synonym INT16U = "16 word"
type_synonym INT32U = "32 word"

text \<open>
  \<^verbatim>\<open>typedef enum {PROC1START2, PROC2START1} TSI_TASK_STATE_T;\<close>
  The task switches on the variable and has a \<^verbatim>\<open>default\<close> branch, so the variable is
  kept as the integer that underlies the enumeration: the two enumerators are 0 and 1.
\<close>

type_synonym TSI_TASK_STATE_T = nat

definition PROC1START2 :: TSI_TASK_STATE_T where
  "PROC1START2 = 0"

definition PROC2START1 :: TSI_TASK_STATE_T where
  "PROC2START1 = 1"

record TOUCH_LEVEL_T =
  baseline :: INT16U
  offset :: INT16U
  threshold :: INT16U

text \<open>
  \<^verbatim>\<open>typedef struct{ INT8U buffer; OS_SEM flag; }TSI_BUFFER;\<close>
  The semaphore is kept as the number of notifications that are pending.
\<close>

record TSI_BUFFER =
  buffer :: INT8U
  flag :: nat

definition MAX_NUM_ELECTRODES :: nat where
  "MAX_NUM_ELECTRODES = 16"

definition E1_TOUCH_OFFSET :: INT16U where
  "E1_TOUCH_OFFSET = 0x0400"

definition E2_TOUCH_OFFSET :: INT16U where
  "E2_TOUCH_OFFSET = 0x0400"

text \<open>
  The status codes of the kernel come from a header that is not part of the file; only
  \<^verbatim>\<open>OS_ERR_NONE\<close> is named by the driver. The other two stand for the timeout of a
  pend and for any other failure.
\<close>

datatype OS_ERR = OS_ERR_NONE | OS_ERR_TIMEOUT | OS_ERR_OTHER

text \<open>
  The macros of K65TWR_TSI.h and of the device header that the driver uses are parameters
  of the model: the channel numbers of the two pads and the two register masks.
\<close>

record tsi_board =
  BRD_PAD1_CH :: INT8U
  BRD_PAD2_CH :: INT8U
  TSI_GENCS_EOSF_MASK :: INT32U
  TSI_DATA_TSICNT_MASK :: INT32U

text \<open>
  What the driver does to the peripheral and to the kernel is recorded in a trace, oldest
  event first: the periodic delay, the start of a scan on a channel, the end of the
  busy-wait of \<^verbatim>\<open>tsiProcScan\<close> for a channel (the end-of-scan flag was seen and cleared),
  and a post of the semaphore.
\<close>

datatype tsi_event = TimeDly | StartScan INT8U | ProcScan INT8U | SemPost

text \<open>
  The module-level variables. \<^verbatim>\<open>tsiSensorLevels\<close> is an array of
  \<^verbatim>\<open>MAX_NUM_ELECTRODES\<close> entries; it is a function of the index here, and every access
  checks the index against \<^verbatim>\<open>MAX_NUM_ELECTRODES\<close> first.
\<close>

record tsi_state =
  tsiSensorLevels :: "nat \<Rightarrow> TOUCH_LEVEL_T"
  tsiBuffer :: TSI_BUFFER
  tsiSensorFlags :: INT16U
  tsiTaskState :: TSI_TASK_STATE_T
  trace :: "tsi_event list"

text \<open>
  A function of the driver either returns with the new state or does not return normally:
  a busy-wait that never sees the end-of-scan flag, the error trap of \<^verbatim>\<open>TSIInit\<close>, or an
  index outside \<^verbatim>\<open>tsiSensorLevels\<close> (undefined behaviour in C).
\<close>

datatype tsi_stop = ScanStall | ErrorTrap | OutOfRange

text \<open>
  What the peripheral shows during one wait for a scan: the values of \<^verbatim>\<open>TSI0->GENCS\<close>
  that the busy-wait reads, one for each test of the loop condition, and the value of
  \<^verbatim>\<open>TSI0->DATA\<close> that is read after the loop.
\<close>

type_synonym tsi_scan = "INT32U list \<times> INT32U"

subsection \<open>Static initial values\<close>

definition tsi_static_init :: tsi_state where
  "tsi_static_init =
     \<lparr> tsiSensorLevels = (\<lambda>_. \<lparr> baseline = 0, offset = 0, threshold = 0 \<rparr>),
       tsiBuffer = \<lparr> buffer = 0, flag = 0 \<rparr>,
       tsiSensorFlags = 0,
       tsiTaskState = PROC1START2,
       trace = [] \<rparr>"

subsection \<open>Kernel services\<close>

text \<open>
  Modelled from the spec: \<^verbatim>\<open>OSSemPost\<close> belongs to the kernel and is not in the file. The
  spec gives the buffer a binary notification: a post when none is pending makes one
  pending, and a post while one is already pending is a no-op. Every call is recorded in
  the trace.
\<close>

definition OSSemPost :: "tsi_state \<Rightarrow> tsi_state" where
  "OSSemPost s =
     s\<lparr> tsiBuffer := (tsiBuffer s)\<lparr> flag := (if flag (tsiBuffer s) = 0 then 1 else flag (tsiBuffer s)) \<rparr>,
        trace := trace s @ [SemPost] \<rparr>"

text \<open>\<^verbatim>\<open>OSTimeDly(8, OS_OPT_TIME_PERIODIC, &os_err)\<close>: the task sleeps to its next period.\<close>

definition OSTimeDly :: "tsi_state \<Rightarrow> tsi_state" where
  "OSTimeDly s = s\<lparr> trace := trace s @ [TimeDly] \<rparr>"

subsection \<open>Peripheral access\<close>

text \<open>
  \<^verbatim>\<open>while((TSI0->GENCS & TSI_GENCS_EOSF_MASK) == 0){}\<close> over the values the register
  shows. The loop leaves at the first value with the flag set; when no value has it, the
  loop has not left.
\<close>

fun tsiWaitEOSF :: "INT32U \<Rightarrow> INT32U list \<Rightarrow> bool" where
  "tsiWaitEOSF m [] = False"
| "tsiWaitEOSF m (g # gs) = (if g AND m = 0 then tsiWaitEOSF m gs else True)"

text \<open>\<^verbatim>\<open>(INT16U)(TSI0->DATA & TSI_DATA_TSICNT_MASK)\<close>\<close>

definition tsiCount :: "tsi_board \<Rightarrow> INT32U \<Rightarrow> INT16U" where
  "tsiCount h d = ucast (d AND TSI_DATA_TSICNT_MASK h)"

definition tsiStartScan :: "INT8U \<Rightarrow> tsi_state \<Rightarrow> tsi_state" where
  "tsiStartScan channel s = s\<lparr> trace := trace s @ [StartScan channel] \<rparr>"

subsection \<open>Calibration\<close>

definition TSIChCalibration :: "tsi_board \<Rightarrow> tsi_scan \<Rightarrow> INT8U \<Rightarrow> tsi_state \<Rightarrow> tsi_stop + tsi_state" where
  "TSIChCalibration h i channel s =
     (let s1 = tsiStartScan channel s in
      if \<not> tsiWaitEOSF (TSI_GENCS_EOSF_MASK h) (fst i) then Inl ScanStall
      else if \<not> unat channel < MAX_NUM_ELECTRODES then Inl OutOfRange
      else
        let lv = tsiSensorLevels s1 (unat channel);
            lv1 = lv\<lparr> baseline := tsiCount h (snd i) \<rparr>;
            lv2 = lv1\<lparr> threshold := baseline lv1 + offset lv1 \<rparr>
        in Inr (s1\<lparr> tsiSensorLevels := (tsiSensorLevels s1)(unat channel := lv2) \<rparr>))"

subsection \<open>Processing a scan\<close>

text \<open>
  \<^verbatim>\<open>(INT16U)(1<<channel)\<close>: the shift is done in \<^verbatim>\<open>int\<close> and the result is cut to 16
  bits. The function is only reached with \<^verbatim>\<open>channel < MAX_NUM_ELECTRODES\<close>.
\<close>

definition tsiChannelBit :: "INT8U \<Rightarrow> INT16U" where
  "tsiChannelBit channel = push_bit (unat channel) 1"

text \<open>
  The comparison \<^verbatim>\<open>tsiBuffer.buffer != tsiSensorFlags\<close> promotes both operands to
  \<^verbatim>\<open>int\<close>; the assignment \<^verbatim>\<open>tsiBuffer.buffer = tsiSensorFlags\<close> converts to
  \<^verbatim>\<open>INT8U\<close>.
\<close>

definition tsiProcScan :: "tsi_board \<Rightarrow> tsi_scan \<Rightarrow> INT8U \<Rightarrow> tsi_state \<Rightarrow> tsi_stop + tsi_state" where
  "tsiProcScan h i channel s =
     (if \<not> tsiWaitEOSF (TSI_GENCS_EOSF_MASK h) (fst i) then Inl ScanStall
      else if \<not> unat channel < MAX_NUM_ELECTRODES then Inl OutOfRange
      else
        let s1 = s\<lparr> trace := trace s @ [ProcScan channel] \<rparr>;
            s2 = (if tsiCount h (snd i) > threshold (tsiSensorLevels s1 (unat channel))
                  then s1\<lparr> tsiSensorFlags := tsiSensorFlags s1 OR tsiChannelBit channel \<rparr>
                  else s1\<lparr> tsiSensorFlags := tsiSensorFlags s1 AND tsiChannelBit channel \<rparr>)
        in if uint (buffer (tsiBuffer s2)) \<noteq> uint (tsiSensorFlags s2)
           then Inr (OSSemPost (s2\<lparr> tsiBuffer := (tsiBuffer s2)\<lparr> buffer := ucast (tsiSensorFlags s2) \<rparr> \<rparr>))
           else Inr s2)"

text \<open>
  Successive calls of \<^verbatim>\<open>tsiProcScan\<close> on one channel, one for each scan of the list.
\<close>

fun tsiProcScans :: "tsi_board \<Rightarrow> tsi_scan list \<Rightarrow> INT8U \<Rightarrow> tsi_state \<Rightarrow> tsi_stop + tsi_state" where
  "tsiProcScans h [] channel s = Inr s"
| "tsiProcScans h (i # ins) channel s =
     (case tsiProcScan h i channel s of Inl e \<Rightarrow> Inl e | Inr s' \<Rightarrow> tsiProcScans h ins channel s')"

subsection \<open>The scanning task\<close>

text \<open>
  One pass of the body of \<^verbatim>\<open>while(1)\<close> in \<^verbatim>\<open>TSITask\<close>. The debug-bit macros write
  to GPIO pins only and are left out.
\<close>

definition TSITask_period :: "tsi_board \<Rightarrow> tsi_scan \<Rightarrow> tsi_state \<Rightarrow> tsi_stop + tsi_state" where
  "TSITask_period h i s =
     (let s1 = tsiStartScan (BRD_PAD1_CH h) (OSTimeDly s) in
      if tsiTaskState s1 = PROC1START2 then
        (case tsiProcScan h i (BRD_PAD1_CH h) s1 of
           Inl e \<Rightarrow> Inl e
         | Inr s2 \<Rightarrow> Inr ((tsiStartScan (BRD_PAD2_CH h) s2)\<lparr> tsiTaskState := PROC2START1 \<rparr>))
      else if tsiTaskState s1 = PROC2START1 then
        (case tsiProcScan h i (BRD_PAD2_CH h) s1 of
           Inl e \<Rightarrow> Inl e
         | Inr s2 \<Rightarrow> Inr ((tsiStartScan (BRD_PAD1_CH h) s2)\<lparr> tsiTaskState := PROC1START2 \<rparr>))
      else Inr (s1\<lparr> tsiTaskState := PROC1START2 \<rparr>))"

text \<open>
  The task never returns. Its first periods, one element of the list for each, are run
  by \<open>TSITask\<close>; the scan of a period is not looked at when the period processes nothing.
\<close>

fun TSITask :: "tsi_board \<Rightarrow> tsi_scan list \<Rightarrow> tsi_state \<Rightarrow> tsi_stop + tsi_state" where
  "TSITask h [] s = Inr s"
| "TSITask h (i # ins) s =
     (case TSITask_period h i s of Inl e \<Rightarrow> Inl e | Inr s' \<Rightarrow> TSITask h ins s')"

subsection \<open>Pending on the buffer\<close>

text \<open>
  Modelled from the spec: \<^verbatim>\<open>OSSemPend\<close> belongs to the kernel and is not in the file.
  The spec has the caller blocked, other tasks running meanwhile, until a notification
  arrives or the timeout elapses; a notification that is taken is no longer pending, and a
  timeout takes nothing. The wait is over the ticks of the timeout: for each tick the list
  says whether the scanning task runs one of its periods in it, and on which scan. A
  notification that is pending when a tick begins ends the wait with \<^verbatim>\<open>OS_ERR_NONE\<close>;
  when the ticks are used up and none is pending, the wait ends with
  \<^verbatim>\<open>OS_ERR_TIMEOUT\<close>. A period of the scanning task that does not return stops
  everything.
\<close>

type_synonym tsi_tick = "tsi_scan option"

definition tsiSemTake :: "tsi_state \<Rightarrow> tsi_state" where
  "tsiSemTake s = s\<lparr> tsiBuffer := (tsiBuffer s)\<lparr> flag := flag (tsiBuffer s) - 1 \<rparr> \<rparr>"

fun OSSemPend :: "tsi_board \<Rightarrow> tsi_tick list \<Rightarrow> tsi_state \<Rightarrow> tsi_stop + OS_ERR \<times> tsi_state" where
  "OSSemPend h [] s =
     (if flag (tsiBuffer s) \<noteq> 0 then Inr (OS_ERR_NONE, tsiSemTake s) else Inr (OS_ERR_TIMEOUT, s))"
| "OSSemPend h (t # ts) s =
     (if flag (tsiBuffer s) \<noteq> 0 then Inr (OS_ERR_NONE, tsiSemTake s)
      else case t of
             None \<Rightarrow> OSSemPend h ts s
           | Some i \<Rightarrow> (case TSITask_period h i s of Inl e \<Rightarrow> Inl e | Inr s' \<Rightarrow> OSSemPend h ts s'))"

text \<open>The scans of the periods that the scanning task runs in a list of ticks.\<close>

fun tsiTickScans :: "tsi_tick list \<Rightarrow> tsi_scan list" where
  "tsiTickScans [] = []"
| "tsiTickScans (None # ts) = tsiTickScans ts"
| "tsiTickScans (Some i # ts) = i # tsiTickScans ts"

text \<open>
  \<^verbatim>\<open>INT16U TSIPend(INT16U tout, OS_ERR *os_err)\<close>: the status of the pend goes to the
  caller through \<^verbatim>\<open>os_err\<close>, and the value returned is \<^verbatim>\<open>tsiBuffer.buffer\<close>,
  widened to \<^verbatim>\<open>INT16U\<close>, whatever the status is.
\<close>

definition TSIPend :: "tsi_board \<Rightarrow> tsi_tick list \<Rightarrow> INT16U \<Rightarrow> tsi_state \<Rightarrow> tsi_stop + INT16U \<times> OS_ERR \<times> tsi_state" where
  "TSIPend h ticks tout s =
     (case OSSemPend h (take (unat tout) ticks) s of
        Inl e \<Rightarrow> Inl e
      | Inr (os_err, s') \<Rightarrow> Inr (ucast (buffer (tsiBuffer s')), os_err, s'))"

text \<open>
  Successive calls of \<^verbatim>\<open>TSIPend\<close> by one consumer, each with its ticks and its
  timeout; the values and statuses returned are collected in order.
\<close>

fun TSIPends :: "tsi_board \<Rightarrow> (tsi_tick list \<times> INT16U) list \<Rightarrow> tsi_state \<Rightarrow> tsi_stop + (INT16U \<times> OS_ERR) list \<times> tsi_state" where
  "TSIPends h [] s = Inr ([], s)"
| "TSIPends h ((ticks, tout) # ps) s =
     (case TSIPend h ticks tout s of
        Inl e \<Rightarrow> Inl e
      | Inr (v, os_err, s') \<Rightarrow>
          (case TSIPends h ps s' of
             Inl e \<Rightarrow> Inl e
           | Inr (rs, s'') \<Rightarrow> Inr ((v, os_err) # rs, s'')))"

subsection \<open>Initialisation\<close>

text \<open>
  \<^verbatim>\<open>while(os_err != OS_ERR_NONE){}\<close>: nothing in the loop changes \<^verbatim>\<open>os_err\<close>, so
  the loop is left at once or never.
\<close>

partial_function (option) tsiErrorTrap :: "OS_ERR \<Rightarrow> unit option" where
  "tsiErrorTrap os_err = (if os_err \<noteq> OS_ERR_NONE then tsiErrorTrap os_err else Some ())"

text \<open>
  \<^verbatim>\<open>TSIInit\<close>. The writes to the clock gate, the pin multiplexer and
  \<^verbatim>\<open>TSI0->GENCS\<close> configure the peripheral and are left out. \<^verbatim>\<open>OSSemCreate\<close> and
  \<^verbatim>\<open>OSTaskCreate\<close> belong to the kernel; each writes its status to \<^verbatim>\<open>os_err\<close>, and
  the two statuses are arguments here (\<open>sem_err\<close> and \<open>task_err\<close>). The semaphore is
  created with count 0.
\<close>

definition TSIInit :: "tsi_board \<Rightarrow> tsi_scan \<Rightarrow> tsi_scan \<Rightarrow> OS_ERR \<Rightarrow> OS_ERR \<Rightarrow> tsi_state \<Rightarrow> tsi_stop + tsi_state" where
  "TSIInit h i1 i2 sem_err task_err s =
     (let p1 = unat (BRD_PAD1_CH h); p2 = unat (BRD_PAD2_CH h) in
      if \<not> p1 < MAX_NUM_ELECTRODES then Inl OutOfRange
      else
        let s1 = s\<lparr> tsiSensorLevels :=
                    (tsiSensorLevels s)(p1 := (tsiSensorLevels s p1)\<lparr> offset := E1_TOUCH_OFFSET \<rparr>) \<rparr>
        in if \<not> p2 < MAX_NUM_ELECTRODES then Inl OutOfRange
           else
             let s2 = s1\<lparr> tsiSensorLevels :=
                         (tsiSensorLevels s1)(p2 := (tsiSensorLevels s1 p2)\<lparr> offset := E2_TOUCH_OFFSET \<rparr>) \<rparr>
             in case TSIChCalibration h i1 (BRD_PAD1_CH h) s2 of
                  Inl e \<Rightarrow> Inl e
                | Inr s3 \<Rightarrow>
                    (case TSIChCalibration h i2 (BRD_PAD2_CH h) s3 of
                       Inl e \<Rightarrow> Inl e
                     | Inr s4 \<Rightarrow>
                         let s5 = s4\<lparr> tsiBuffer := \<lparr> buffer = 0x00, flag = 0 \<rparr> \<rparr>;
                             os_err = sem_err;
                             os_err = task_err
                         in (case tsiErrorTrap os_err of None \<Rightarrow> Inl ErrorTrap | Some _ \<Rightarrow> Inr s5)))"

subsection \<open>Reading the trace\<close>

text \<open>The number of posts of the semaphore, and the channels processed, in a trace.\<close>

definition tsiPosts :: "tsi_event list \<Rightarrow> nat" where
  "tsiPosts tr = length (filter (\<lambda>e. e = SemPost) tr)"

fun tsiProcessed :: "tsi_event list \<Rightarrow> INT8U list" where
  "tsiProcessed [] = []"
| "tsiProcessed (ProcScan c # es) = c # tsiProcessed es"
| "tsiProcessed (e # es) = tsiProcessed es"

text \<open>
  \<open>tsiStartsFollowProc seen es\<close>: every start of a scan in \<open>es\<close> comes after the
  processing of another channel, where \<open>seen\<close> holds the channels processed before
  \<open>es\<close>.
\<close>

fun tsiStartsFollowProc :: "INT8U list \<Rightarrow> tsi_event list \<Rightarrow> bool" where
  "tsiStartsFollowProc seen [] = True"
| "tsiStartsFollowProc seen (StartScan c # es) =
     ((\<exists>d \<in> set seen. d \<noteq> c) \<and> tsiStartsFollowProc seen es)"
| "tsiStartsFollowProc seen (ProcScan c # es) = tsiStartsFollowProc (c # seen) es"
| "tsiStartsFollowProc seen (e # es) = tsiStartsFollowProc seen es"

text \<open>
  \<open>tsiOneInFlight b es\<close>: no scan is started in \<open>es\<close> while an earlier start has not
  been waited for, where \<open>b\<close> says whether a start is outstanding before \<open>es\<close>. A start
  is outstanding from \<^verbatim>\<open>tsiStartScan\<close> to the end of the next busy-wait.
\<close>

fun tsiOneInFlight :: "bool \<Rightarrow> tsi_event list \<Rightarrow> bool" where
  "tsiOneInFlight b [] = True"
| "tsiOneInFlight b (StartScan c # es) = (\<not> b \<and> tsiOneInFlight True es)"
| "tsiOneInFlight b (ProcScan c # es) = tsiOneInFlight False es"
| "tsiOneInFlight b (e # es) = tsiOneInFlight b es"

subsection \<open>Example values\<close>

text \<open>
  A board with its pads on channels 12 and 11, a board with its pads on channels 0 and
  1, and the state after start-up in which every channel has baseline \<^verbatim>\<open>0x0400\<close>,
  offset \<^verbatim>\<open>0x0400\<close> and threshold \<^verbatim>\<open>0x0800\<close>. A scan is written as the values of
  \<^verbatim>\<open>GENCS\<close> polled and the value of \<^verbatim>\<open>DATA\<close>: \<open>scan_hi\<close> ends with the count
  \<^verbatim>\<open>0x0900\<close>, above the threshold, and \<open>scan_lo\<close> with the count \<^verbatim>\<open>0x0500\<close>,
  below it.
\<close>

definition board_ex :: tsi_board where
  "board_ex = \<lparr> BRD_PAD1_CH = 12, BRD_PAD2_CH = 11,
                TSI_GENCS_EOSF_MASK = 0x4, TSI_DATA_TSICNT_MASK = 0xFFFF \<rparr>"

definition board_lo :: tsi_board where
  "board_lo = \<lparr> BRD_PAD1_CH = 0, BRD_PAD2_CH = 1,
                TSI_GENCS_EOSF_MASK = 0x4, TSI_DATA_TSICNT_MASK = 0xFFFF \<rparr>"

definition state_ex :: tsi_state where
  "state_ex = tsi_static_init
     \<lparr> tsiSensorLevels := (\<lambda>_. \<lparr> baseline = 0x0400, offset = 0x0400, threshold = 0x0800 \<rparr>) \<rparr>"

definition scan_hi :: tsi_scan where
  "scan_hi = ([0, 0, 4], 0x0900)"

definition scan_lo :: tsi_scan where
  "scan_lo = ([0, 4], 0x0500)"


section \<open>Properties\<close>

lemmas tsi_run_defs = TSITask_period_def tsiProcScan_def Let_def

lemmas tsi_ex_defs = board_ex_def board_lo_def state_ex_def scan_hi_def scan_lo_def tsi_static_init_def
  MAX_NUM_ELECTRODES_def tsiCount_def tsiChannelBit_def OSSemPost_def OSTimeDly_def
  tsiStartScan_def PROC1START2_def PROC2START1_def E1_TOUCH_OFFSET_def E2_TOUCH_OFFSET_def

subsection \<open>What a call of \<^verbatim>\<open>tsiProcScan\<close> that returns has done\<close>

lemma tsiWaitEOSF_iff: "tsiWaitEOSF m gs \<longleftrightarrow> (\<exists>g \<in> set gs. g AND m \<noteq> 0)"
  by (induction gs) auto

text \<open>
  The call returns when the peripheral raises the end-of-scan flag and the channel is
  inside the array.
\<close>

lemma tsiProcScan_total:
  assumes "tsiWaitEOSF (TSI_GENCS_EOSF_MASK h) (fst i)" and "unat channel < MAX_NUM_ELECTRODES"
  shows "\<exists>s'. tsiProcScan h i channel s = Inr s'"
  using assms by (simp add: tsiProcScan_def Let_def)

lemma tsiProcScan_returns:
  "tsiProcScan h i channel s = Inr s' \<Longrightarrow>
     tsiWaitEOSF (TSI_GENCS_EOSF_MASK h) (fst i) \<and> unat channel < MAX_NUM_ELECTRODES"
  by (simp add: tsiProcScan_def split: if_splits)

lemma tsiProcScan_flags:
  "tsiProcScan h i channel s = Inr s' \<Longrightarrow>
     tsiSensorFlags s' =
       (if tsiCount h (snd i) > threshold (tsiSensorLevels s (unat channel))
        then tsiSensorFlags s OR tsiChannelBit channel
        else tsiSensorFlags s AND tsiChannelBit channel)"
  by (auto simp add: tsiProcScan_def Let_def OSSemPost_def split: if_splits)

lemma tsiProcScan_buffer:
  "tsiProcScan h i channel s = Inr s' \<Longrightarrow>
     buffer (tsiBuffer s') =
       (if uint (buffer (tsiBuffer s)) \<noteq> uint (tsiSensorFlags s')
        then ucast (tsiSensorFlags s') else buffer (tsiBuffer s))"
  by (auto simp add: tsiProcScan_def Let_def OSSemPost_def split: if_splits)

lemma tsiProcScan_trace:
  "tsiProcScan h i channel s = Inr s' \<Longrightarrow>
     trace s' = trace s @ ProcScan channel #
       (if uint (buffer (tsiBuffer s)) \<noteq> uint (tsiSensorFlags s') then [SemPost] else [])"
  by (auto simp add: tsiProcScan_def Let_def OSSemPost_def split: if_splits)

lemma tsiProcScan_flag:
  "tsiProcScan h i channel s = Inr s' \<Longrightarrow>
     flag (tsiBuffer s') =
       (if uint (buffer (tsiBuffer s)) \<noteq> uint (tsiSensorFlags s') \<and> flag (tsiBuffer s) = 0
        then 1 else flag (tsiBuffer s))"
  by (auto simp add: tsiProcScan_def Let_def OSSemPost_def split: if_splits)

lemma tsiProcScan_frame:
  "tsiProcScan h i channel s = Inr s' \<Longrightarrow>
     tsiSensorLevels s' = tsiSensorLevels s \<and> tsiTaskState s' = tsiTaskState s"
  by (auto simp add: tsiProcScan_def Let_def OSSemPost_def split: if_splits)

lemma bit_tsiChannelBit:
  "bit (tsiChannelBit channel) n \<longleftrightarrow> n = unat channel \<and> unat channel < 16"
  by (auto simp add: tsiChannelBit_def bit_exp_iff)

text \<open>A count above the threshold sets the bit of the channel and leaves the others.\<close>

lemma tsiProcScan_touch_sets:
  assumes "tsiProcScan h i channel s = Inr s'"
    and "tsiCount h (snd i) > threshold (tsiSensorLevels s (unat channel))"
  shows "bit (tsiSensorFlags s') n \<longleftrightarrow> n = unat channel \<or> bit (tsiSensorFlags s) n"
proof -
  have "unat channel < 16"
    using tsiProcScan_returns [OF assms(1)] by (simp add: MAX_NUM_ELECTRODES_def)
  then show ?thesis
    using tsiProcScan_flags [OF assms(1)] assms(2)
    by (auto simp add: bit_or_iff bit_tsiChannelBit)
qed

text \<open>
  A count that is not above the threshold keeps the bit of the channel as it was and
  clears every other bit: \<^verbatim>\<open>tsiSensorFlags &= (INT16U)(1<<channel)\<close>.
\<close>

lemma tsiProcScan_no_touch_keeps:
  assumes "tsiProcScan h i channel s = Inr s'"
    and "\<not> tsiCount h (snd i) > threshold (tsiSensorLevels s (unat channel))"
  shows "bit (tsiSensorFlags s') n \<longleftrightarrow> n = unat channel \<and> bit (tsiSensorFlags s) n"
proof -
  have "unat channel < 16"
    using tsiProcScan_returns [OF assms(1)] by (simp add: MAX_NUM_ELECTRODES_def)
  then show ?thesis
    using tsiProcScan_flags [OF assms(1)] assms(2)
    by (auto simp add: bit_and_iff bit_tsiChannelBit)
qed

text \<open>
  C1. After \<^verbatim>\<open>tsiProcScan\<close> the bit of the channel should be set exactly when the count
  just read is above the threshold of the channel. The code does not clear the bit: on
  the board with pad 1 on channel 0, from the state after start-up with threshold
  \<^verbatim>\<open>0x0800\<close>, a call on channel 0 that reads \<^verbatim>\<open>0x0900\<close> sets bit 0, and the next
  call on channel 0, which reads \<^verbatim>\<open>0x0500\<close>, returns with bit 0 still set.
\<close>

theorem tsiProcScan_release_keeps_bit:
  "map_sum id (\<lambda>s. bit (tsiSensorFlags s) 0)
     (tsiProcScans board_lo [scan_hi, scan_lo] 0 state_ex) = Inr True"
  by (simp add: tsi_run_defs tsi_ex_defs)

subsection \<open>Calibration\<close>

lemma TSIChCalibration_total:
  assumes "tsiWaitEOSF (TSI_GENCS_EOSF_MASK h) (fst i)" and "unat channel < MAX_NUM_ELECTRODES"
  shows "\<exists>s'. TSIChCalibration h i channel s = Inr s'"
  using assms by (simp add: TSIChCalibration_def Let_def)

lemma TSIChCalibration_returns:
  "TSIChCalibration h i channel s = Inr s' \<Longrightarrow>
     tsiWaitEOSF (TSI_GENCS_EOSF_MASK h) (fst i) \<and> unat channel < MAX_NUM_ELECTRODES"
  by (simp add: TSIChCalibration_def Let_def split: if_splits)

lemma TSIChCalibration_level:
  "TSIChCalibration h i channel s = Inr s' \<Longrightarrow>
     tsiSensorLevels s' (unat channel) =
       \<lparr> baseline = tsiCount h (snd i),
         offset = offset (tsiSensorLevels s (unat channel)),
         threshold = tsiCount h (snd i) + offset (tsiSensorLevels s (unat channel)) \<rparr>"
  by (auto simp add: TSIChCalibration_def Let_def tsiStartScan_def split: if_splits)

lemma TSIChCalibration_frame:
  "TSIChCalibration h i channel s = Inr s' \<Longrightarrow>
     (\<forall>n. n \<noteq> unat channel \<longrightarrow> tsiSensorLevels s' n = tsiSensorLevels s n) \<and>
     tsiBuffer s' = tsiBuffer s \<and> tsiSensorFlags s' = tsiSensorFlags s \<and>
     tsiTaskState s' = tsiTaskState s \<and> trace s' = trace s @ [StartScan channel]"
  by (auto simp add: TSIChCalibration_def Let_def tsiStartScan_def split: if_splits)

text \<open>
  C5, as the claim states it: after a calibration the threshold is the baseline plus the
  offset. With a count of \<^verbatim>\<open>0xFFFF\<close> and the offset \<^verbatim>\<open>0x0400\<close> the calibration of
  channel 12 returns and the threshold is \<^verbatim>\<open>0x03FF\<close>, not the sum.
\<close>

theorem TSIChCalibration_threshold_wraps:
  "map_sum id (\<lambda>s. unat (threshold (tsiSensorLevels s 12)) =
        unat (baseline (tsiSensorLevels s 12)) + unat (offset (tsiSensorLevels s 12)))
     (TSIChCalibration board_ex ([4], 0xFFFF) 12 state_ex) = Inr False"
  by (simp add: TSIChCalibration_def tsi_ex_defs Let_def)

text \<open>
  C5, amended: when \<^verbatim>\<open>TSIChCalibration\<close> returns, the baseline of the channel is the
  count read from the scan it started, and the threshold is the baseline plus the offset
  modulo \<open>2 ^ 16\<close>. The new entry is made of the count and of the offset alone: the
  baseline and the threshold that were there before are overwritten.
\<close>

theorem TSIChCalibration_sets_level:
  assumes "TSIChCalibration h i channel s = Inr s'"
  shows "baseline (tsiSensorLevels s' (unat channel)) = tsiCount h (snd i) \<and>
         unat (threshold (tsiSensorLevels s' (unat channel))) =
           (unat (baseline (tsiSensorLevels s' (unat channel))) +
            unat (offset (tsiSensorLevels s' (unat channel)))) mod 2 ^ 16 \<and>
         tsiSensorLevels s' (unat channel) =
           \<lparr> baseline = tsiCount h (snd i),
             offset = offset (tsiSensorLevels s (unat channel)),
             threshold = tsiCount h (snd i) + offset (tsiSensorLevels s (unat channel)) \<rparr> \<and>
         trace s' = trace s @ [StartScan channel]"
  using TSIChCalibration_level [OF assms] TSIChCalibration_frame [OF assms]
  by (simp add: unat_word_ariths)

theorem TSIChCalibration_sets_level_witness:
  "map_sum id (\<lambda>s. (tsiSensorLevels s 12, trace s))
     (TSIChCalibration board_ex scan_hi 12 state_ex) =
       Inr (\<lparr> baseline = 0x0900, offset = 0x0400, threshold = 0x0D00 \<rparr>, [StartScan 12]) \<and>
   unat (0x0D00 :: INT16U) = (unat (0x0900 :: INT16U) + unat (0x0400 :: INT16U)) mod 2 ^ 16"
proof -
  obtain s' where h: "TSIChCalibration board_ex scan_hi 12 state_ex = Inr s'"
    by (simp add: TSIChCalibration_def tsi_ex_defs Let_def)
  from TSIChCalibration_sets_level [OF h] show ?thesis
    using h by (simp add: tsi_ex_defs)
qed

subsection \<open>The scanning task\<close>

lemma tsiProcessed_append: "tsiProcessed (xs @ ys) = tsiProcessed xs @ tsiProcessed ys"
  by (induction xs rule: tsiProcessed.induct) simp_all

lemma tsiPosts_append: "tsiPosts (xs @ ys) = tsiPosts xs + tsiPosts ys"
  by (simp add: tsiPosts_def)

lemma TSITask_period_S1:
  assumes "TSITask_period h i s = Inr s'" and "tsiTaskState s = PROC1START2"
  shows "\<exists>s2. tsiProcScan h i (BRD_PAD1_CH h)
                 (s\<lparr> trace := trace s @ [TimeDly, StartScan (BRD_PAD1_CH h)] \<rparr>) = Inr s2 \<and>
              s' = s2\<lparr> trace := trace s2 @ [StartScan (BRD_PAD2_CH h)], tsiTaskState := PROC2START1 \<rparr>"
  using assms
  by (auto simp add: TSITask_period_def Let_def tsiStartScan_def OSTimeDly_def split: sum.splits)

lemma TSITask_period_S2:
  assumes "TSITask_period h i s = Inr s'" and "tsiTaskState s = PROC2START1"
  shows "\<exists>s2. tsiProcScan h i (BRD_PAD2_CH h)
                 (s\<lparr> trace := trace s @ [TimeDly, StartScan (BRD_PAD1_CH h)] \<rparr>) = Inr s2 \<and>
              s' = s2\<lparr> trace := trace s2 @ [StartScan (BRD_PAD1_CH h)], tsiTaskState := PROC1START2 \<rparr>"
  using assms
  by (auto simp add: TSITask_period_def Let_def tsiStartScan_def OSTimeDly_def
        PROC1START2_def PROC2START1_def split: sum.splits)

lemma TSITask_period_other:
  assumes "TSITask_period h i s = Inr s'"
    and "tsiTaskState s \<noteq> PROC1START2" and "tsiTaskState s \<noteq> PROC2START1"
  shows "s' = s\<lparr> trace := trace s @ [TimeDly, StartScan (BRD_PAD1_CH h)], tsiTaskState := PROC1START2 \<rparr>"
  using assms
  by (auto simp add: TSITask_period_def Let_def tsiStartScan_def OSTimeDly_def split: sum.splits)

lemma TSITask_period_trace:
  assumes "TSITask_period h i s = Inr s'"
  shows "filter (\<lambda>e. e \<noteq> SemPost) (trace s') = filter (\<lambda>e. e \<noteq> SemPost) (trace s) @
           (if tsiTaskState s = PROC1START2
            then [TimeDly, StartScan (BRD_PAD1_CH h), ProcScan (BRD_PAD1_CH h), StartScan (BRD_PAD2_CH h)]
            else if tsiTaskState s = PROC2START1
            then [TimeDly, StartScan (BRD_PAD1_CH h), ProcScan (BRD_PAD2_CH h), StartScan (BRD_PAD1_CH h)]
            else [TimeDly, StartScan (BRD_PAD1_CH h)])"
proof (cases "tsiTaskState s = PROC1START2")
  case True
  from TSITask_period_S1 [OF assms True] obtain s2 where
    p: "tsiProcScan h i (BRD_PAD1_CH h)
          (s\<lparr> trace := trace s @ [TimeDly, StartScan (BRD_PAD1_CH h)] \<rparr>) = Inr s2"
    and s': "s' = s2\<lparr> trace := trace s2 @ [StartScan (BRD_PAD2_CH h)], tsiTaskState := PROC2START1 \<rparr>"
    by blast
  show ?thesis using tsiProcScan_trace [OF p] True by (simp add: s')
next
  case False
  show ?thesis
  proof (cases "tsiTaskState s = PROC2START1")
    case True
    from TSITask_period_S2 [OF assms True] obtain s2 where
      p: "tsiProcScan h i (BRD_PAD2_CH h)
            (s\<lparr> trace := trace s @ [TimeDly, StartScan (BRD_PAD1_CH h)] \<rparr>) = Inr s2"
      and s': "s' = s2\<lparr> trace := trace s2 @ [StartScan (BRD_PAD1_CH h)], tsiTaskState := PROC1START2 \<rparr>"
      by blast
    show ?thesis using tsiProcScan_trace [OF p] True False by (simp add: s')
  next
    case F2: False
    show ?thesis using TSITask_period_other [OF assms False F2] False F2 by simp
  qed
qed

lemma TSITask_period_state:
  assumes "TSITask_period h i s = Inr s'"
  shows "tsiTaskState s' = (if tsiTaskState s = PROC1START2 then PROC2START1 else PROC1START2)"
  using assms
  by (auto simp add: TSITask_period_def Let_def tsiStartScan_def OSTimeDly_def
        dest!: tsiProcScan_frame split: sum.splits if_splits)

lemma TSITask_period_processed:
  assumes "TSITask_period h i s = Inr s'"
  shows "tsiProcessed (trace s') = tsiProcessed (trace s) @
           (if tsiTaskState s = PROC1START2 then [BRD_PAD1_CH h]
            else if tsiTaskState s = PROC2START1 then [BRD_PAD2_CH h] else [])"
proof (cases "tsiTaskState s = PROC1START2")
  case True
  from TSITask_period_S1 [OF assms True] obtain s2 where
    p: "tsiProcScan h i (BRD_PAD1_CH h)
          (s\<lparr> trace := trace s @ [TimeDly, StartScan (BRD_PAD1_CH h)] \<rparr>) = Inr s2"
    and s': "s' = s2\<lparr> trace := trace s2 @ [StartScan (BRD_PAD2_CH h)], tsiTaskState := PROC2START1 \<rparr>"
    by blast
  show ?thesis using tsiProcScan_trace [OF p] True by (simp add: s' tsiProcessed_append)
next
  case False
  show ?thesis
  proof (cases "tsiTaskState s = PROC2START1")
    case True
    from TSITask_period_S2 [OF assms True] obtain s2 where
      p: "tsiProcScan h i (BRD_PAD2_CH h)
            (s\<lparr> trace := trace s @ [TimeDly, StartScan (BRD_PAD1_CH h)] \<rparr>) = Inr s2"
      and s': "s' = s2\<lparr> trace := trace s2 @ [StartScan (BRD_PAD1_CH h)], tsiTaskState := PROC1START2 \<rparr>"
      by blast
    show ?thesis using tsiProcScan_trace [OF p] True False by (simp add: s' tsiProcessed_append)
  next
    case F2: False
    show ?thesis
      using TSITask_period_other [OF assms False F2] False F2 by (simp add: tsiProcessed_append)
  qed
qed

lemma map_upt_1_Suc_Suc:
  "map f [Suc 0..<Suc (Suc n)] = f (Suc 0) # map (\<lambda>k. f (Suc k)) [Suc 0..<Suc n]"
proof -
  have "[Suc 0..<Suc (Suc n)] = Suc 0 # map Suc [Suc 0..<Suc n]"
    by (metis map_Suc_upt upt_conv_Cons zero_less_Suc Suc_less_eq)
  then show ?thesis by (simp add: comp_def)
qed

text \<open>
  The channels processed by a run of periods that starts in either state of the cycle:
  the two pads in turn, beginning with the pad of the starting state.
\<close>

lemma TSITask_run:
  "TSITask h ins s = Inr s' \<Longrightarrow> tsiTaskState s = PROC1START2 \<or> tsiTaskState s = PROC2START1 \<Longrightarrow>
   tsiProcessed (trace s') = tsiProcessed (trace s) @
     map (\<lambda>k. if odd k = (tsiTaskState s = PROC1START2) then BRD_PAD1_CH h else BRD_PAD2_CH h)
       [1..<Suc (length ins)] \<and>
   tsiTaskState s' =
     (if even (length ins) then tsiTaskState s
      else if tsiTaskState s = PROC1START2 then PROC2START1 else PROC1START2)"
proof (induction ins arbitrary: s)
  case Nil
  then show ?case by simp
next
  case (Cons i ins)
  from Cons.prems(1) obtain s1 where
    p: "TSITask_period h i s = Inr s1" and r: "TSITask h ins s1 = Inr s'"
    by (auto split: sum.splits)
  have ne: "PROC1START2 \<noteq> PROC2START1"
    by (simp add: PROC1START2_def PROC2START1_def)
  have st: "tsiTaskState s1 = (if tsiTaskState s = PROC1START2 then PROC2START1 else PROC1START2)"
    by (rule TSITask_period_state [OF p])
  then have "tsiTaskState s1 = PROC1START2 \<or> tsiTaskState s1 = PROC2START1"
    by simp
  from Cons.IH [OF r this] TSITask_period_processed [OF p] st ne Cons.prems(2)
  show ?case
    by (auto simp add: map_upt_1_Suc_Suc simp del: upt_Suc)
qed

text \<open>
  C4. The state of the scan cycle starts at \<^verbatim>\<open>PROC1START2\<close>. A period that returns
  moves \<^verbatim>\<open>PROC1START2\<close> to \<^verbatim>\<open>PROC2START1\<close> and every other state to
  \<^verbatim>\<open>PROC1START2\<close>; leaving the posts of the semaphore aside, in \<^verbatim>\<open>PROC1START2\<close> it
  processes pad 1 and then starts the scan of pad 2, in \<^verbatim>\<open>PROC2START1\<close> it processes
  pad 2 and then starts the scan of pad 1, and on any other value of the state it
  processes nothing and changes only the state. Over any number of periods that start in
  \<^verbatim>\<open>PROC1START2\<close>, pad 1 is processed in the odd periods and pad 2 in the even periods,
  counted from 1.
\<close>

theorem TSITask_alternates:
  "tsiTaskState tsi_static_init = PROC1START2 \<and>
   (TSITask_period h i s = Inr s1 \<longrightarrow>
      tsiTaskState s1 = (if tsiTaskState s = PROC1START2 then PROC2START1 else PROC1START2) \<and>
      filter (\<lambda>e. e \<noteq> SemPost) (trace s1) = filter (\<lambda>e. e \<noteq> SemPost) (trace s) @
        (if tsiTaskState s = PROC1START2
         then [TimeDly, StartScan (BRD_PAD1_CH h), ProcScan (BRD_PAD1_CH h), StartScan (BRD_PAD2_CH h)]
         else if tsiTaskState s = PROC2START1
         then [TimeDly, StartScan (BRD_PAD1_CH h), ProcScan (BRD_PAD2_CH h), StartScan (BRD_PAD1_CH h)]
         else [TimeDly, StartScan (BRD_PAD1_CH h)]) \<and>
      (tsiTaskState s \<noteq> PROC1START2 \<and> tsiTaskState s \<noteq> PROC2START1 \<longrightarrow>
         s1 = s\<lparr> trace := trace s @ [TimeDly, StartScan (BRD_PAD1_CH h)],
                tsiTaskState := PROC1START2 \<rparr>)) \<and>
   (tsiTaskState s0 = PROC1START2 \<and> TSITask h ins s0 = Inr s' \<longrightarrow>
      tsiTaskState s' = (if even (length ins) then PROC1START2 else PROC2START1) \<and>
      tsiProcessed (trace s') = tsiProcessed (trace s0) @
        map (\<lambda>k. if odd k then BRD_PAD1_CH h else BRD_PAD2_CH h) [1..<Suc (length ins)])"
proof (intro conjI impI)
  show "tsiTaskState tsi_static_init = PROC1START2"
    by (simp add: tsi_static_init_def)
next
  assume "TSITask_period h i s = Inr s1"
  then show "tsiTaskState s1 = (if tsiTaskState s = PROC1START2 then PROC2START1 else PROC1START2)"
    by (rule TSITask_period_state)
next
  assume "TSITask_period h i s = Inr s1"
  then show "filter (\<lambda>e. e \<noteq> SemPost) (trace s1) = filter (\<lambda>e. e \<noteq> SemPost) (trace s) @
        (if tsiTaskState s = PROC1START2
         then [TimeDly, StartScan (BRD_PAD1_CH h), ProcScan (BRD_PAD1_CH h), StartScan (BRD_PAD2_CH h)]
         else if tsiTaskState s = PROC2START1
         then [TimeDly, StartScan (BRD_PAD1_CH h), ProcScan (BRD_PAD2_CH h), StartScan (BRD_PAD1_CH h)]
         else [TimeDly, StartScan (BRD_PAD1_CH h)])"
    by (rule TSITask_period_trace)
next
  assume "TSITask_period h i s = Inr s1"
    and "tsiTaskState s \<noteq> PROC1START2 \<and> tsiTaskState s \<noteq> PROC2START1"
  then show "s1 = s\<lparr> trace := trace s @ [TimeDly, StartScan (BRD_PAD1_CH h)],
                     tsiTaskState := PROC1START2 \<rparr>"
    by (simp add: TSITask_period_other)
next
  assume a: "tsiTaskState s0 = PROC1START2 \<and> TSITask h ins s0 = Inr s'"
  then show "tsiTaskState s' = (if even (length ins) then PROC1START2 else PROC2START1)"
    using TSITask_run [of h ins s0 s'] by simp
  from a show "tsiProcessed (trace s') = tsiProcessed (trace s0) @
        map (\<lambda>k. if odd k then BRD_PAD1_CH h else BRD_PAD2_CH h) [1..<Suc (length ins)]"
    using TSITask_run [of h ins s0 s'] by simp
qed

theorem TSITask_alternates_witness:
  "map_sum id (\<lambda>s. (tsiTaskState s, trace s))
     (TSITask_period board_ex scan_hi (state_ex\<lparr> tsiTaskState := 7 \<rparr>)) =
       Inr (PROC1START2, [TimeDly, StartScan 12]) \<and>
   map_sum id (\<lambda>s. (tsiTaskState s, tsiProcessed (trace s)))
     (TSITask board_ex [scan_hi, scan_lo, scan_hi] state_ex) = Inr (PROC2START1, [12, 11, 12])"
proof -
  obtain s1 where h1: "TSITask_period board_ex scan_hi (state_ex\<lparr> tsiTaskState := 7 \<rparr>) = Inr s1"
    by (simp add: tsi_run_defs tsi_ex_defs)
  obtain s' where h2: "TSITask board_ex [scan_hi, scan_lo, scan_hi] state_ex = Inr s'"
    by (simp add: tsi_run_defs tsi_ex_defs)
  have h0: "tsiTaskState state_ex = PROC1START2"
    by (simp add: tsi_ex_defs)
  from TSITask_alternates [of board_ex scan_hi "state_ex\<lparr> tsiTaskState := 7 \<rparr>" s1
      state_ex "[scan_hi, scan_lo, scan_hi]" s']
  show ?thesis
    using h1 h2 h0 by (simp add: tsi_ex_defs)
qed

text \<open>
  C6, as the claim states it: every start of a scan follows the processing of the other
  pad within the same period, so that one scan is in flight at any time. The first
  period on the example board begins with the start of a scan on pad 1, before anything
  is processed; and over two periods a scan is started (pad 1, at the head of the second
  period) while the start at the end of the first period (pad 2) has not been waited for.
\<close>

theorem TSITask_period_leading_start:
  "map_sum id (\<lambda>s. tsiStartsFollowProc [] (trace s))
     (TSITask_period board_ex scan_lo state_ex) = Inr False \<and>
   map_sum id (\<lambda>s. tsiOneInFlight False (trace s))
     (TSITask board_ex [scan_lo, scan_lo] state_ex) = Inr False"
  by (simp add: tsi_run_defs tsi_ex_defs)

text \<open>
  C6, amended: every period that returns begins, after the delay, with the start of a
  scan on pad 1, whatever the state of the cycle is and before anything is processed;
  every start of a scan after that one in the period follows the processing of the
  other pad in the same period. The two pads are on different channels.
\<close>

theorem TSITask_period_starts:
  assumes "TSITask_period h i s = Inr s'" and "BRD_PAD1_CH h \<noteq> BRD_PAD2_CH h"
  shows "\<exists>rest. trace s' = trace s @ TimeDly # StartScan (BRD_PAD1_CH h) # rest \<and>
           tsiStartsFollowProc [] rest"
proof (cases "tsiTaskState s = PROC1START2")
  case True
  from TSITask_period_S1 [OF assms(1) True] obtain s2 where
    p: "tsiProcScan h i (BRD_PAD1_CH h)
          (s\<lparr> trace := trace s @ [TimeDly, StartScan (BRD_PAD1_CH h)] \<rparr>) = Inr s2"
    and s': "s' = s2\<lparr> trace := trace s2 @ [StartScan (BRD_PAD2_CH h)], tsiTaskState := PROC2START1 \<rparr>"
    by blast
  show ?thesis using tsiProcScan_trace [OF p] assms(2) by (simp add: s')
next
  case False
  show ?thesis
  proof (cases "tsiTaskState s = PROC2START1")
    case True
    from TSITask_period_S2 [OF assms(1) True] obtain s2 where
      p: "tsiProcScan h i (BRD_PAD2_CH h)
            (s\<lparr> trace := trace s @ [TimeDly, StartScan (BRD_PAD1_CH h)] \<rparr>) = Inr s2"
      and s': "s' = s2\<lparr> trace := trace s2 @ [StartScan (BRD_PAD1_CH h)], tsiTaskState := PROC1START2 \<rparr>"
      by blast
    show ?thesis using tsiProcScan_trace [OF p] assms(2) by (auto simp add: s')
  next
    case F2: False
    show ?thesis using TSITask_period_other [OF assms(1) False F2] by simp
  qed
qed

theorem TSITask_period_starts_witness:
  "BRD_PAD1_CH board_ex \<noteq> BRD_PAD2_CH board_ex \<and>
   map_sum id trace (TSITask_period board_ex scan_hi state_ex) =
     Inr (TimeDly # StartScan 12 # [ProcScan 12, SemPost, StartScan 11]) \<and>
   tsiStartsFollowProc [] [ProcScan 12, SemPost, StartScan 11]"
proof -
  obtain s' where h: "TSITask_period board_ex scan_hi state_ex = Inr s'"
    by (simp add: tsi_run_defs tsi_ex_defs)
  have ne: "BRD_PAD1_CH board_ex \<noteq> BRD_PAD2_CH board_ex"
    by (simp add: board_ex_def)
  from TSITask_period_starts [OF h ne] obtain rest where
    "trace s' = trace state_ex @ TimeDly # StartScan (BRD_PAD1_CH board_ex) # rest"
    and "tsiStartsFollowProc [] rest"
    by blast
  moreover have "map_sum id trace (TSITask_period board_ex scan_hi state_ex) =
      Inr [TimeDly, StartScan 12, ProcScan 12, SemPost, StartScan 11]"
    by (simp add: tsi_run_defs tsi_ex_defs)
  ultimately show ?thesis
    using h ne by (simp add: tsi_ex_defs)
qed

subsection \<open>Publishing the flags\<close>

lemma tsiProcScan_posts:
  assumes "tsiProcScan h i channel s = Inr s'"
  shows "(tsiPosts (trace s') = tsiPosts (trace s) \<and> tsiBuffer s' = tsiBuffer s) \<or>
         (tsiPosts (trace s') = tsiPosts (trace s) + 1 \<and>
          flag (tsiBuffer s') = (if flag (tsiBuffer s) = 0 then 1 else flag (tsiBuffer s)) \<and>
          buffer (tsiBuffer s') = ucast (tsiSensorFlags s'))"
  using assms
  by (auto simp add: tsiProcScan_def Let_def OSSemPost_def tsiPosts_def split: if_splits)

text \<open>
  When the flags differ from the buffer, the buffer takes the flags cut to eight bits,
  the semaphore is posted once, and one notification is pending afterwards.
\<close>

lemma tsiProcScan_publish:
  assumes "tsiProcScan h i channel s = Inr s'"
    and "uint (buffer (tsiBuffer s)) \<noteq> uint (tsiSensorFlags s')"
  shows "buffer (tsiBuffer s') = ucast (tsiSensorFlags s') \<and>
         trace s' = trace s @ [ProcScan channel, SemPost] \<and>
         tsiPosts (trace s') = tsiPosts (trace s) + 1 \<and>
         (flag (tsiBuffer s) \<le> 1 \<longrightarrow> flag (tsiBuffer s') = 1)"
  using tsiProcScan_buffer [OF assms(1)] tsiProcScan_trace [OF assms(1)]
    tsiProcScan_flag [OF assms(1)] assms(2)
  by (auto simp add: tsiPosts_def)

text \<open>When the flags equal the buffer, the buffer is left alone and nothing is posted.\<close>

lemma tsiProcScan_unchanged:
  assumes "tsiProcScan h i channel s = Inr s'"
    and "uint (buffer (tsiBuffer s)) = uint (tsiSensorFlags s')"
  shows "tsiBuffer s' = tsiBuffer s \<and> trace s' = trace s @ [ProcScan channel] \<and>
         tsiPosts (trace s') = tsiPosts (trace s)"
  using assms
  by (auto simp add: tsiProcScan_def Let_def OSSemPost_def tsiPosts_def split: if_splits)

lemma tsiProcScan_flag_le:
  assumes "tsiProcScan h i channel s = Inr s'" and "flag (tsiBuffer s) \<le> 1"
  shows "flag (tsiBuffer s') \<le> 1"
  using tsiProcScan_flag [OF assms(1)] assms(2) by simp

lemma unat_ucast_buffer: "unat (ucast (w :: INT16U) :: INT8U) = unat w mod 2 ^ 8"
  by (simp add: unsigned_ucast_eq take_bit_eq_mod)

lemma uint_ucast_low:
  assumes "unat (w :: INT16U) < 2 ^ 8"
  shows "uint (ucast w :: INT8U) = uint w"
proof -
  have "unat (ucast w :: INT8U) = unat w"
    using assms by (simp add: unat_ucast_buffer)
  then show ?thesis
    by (metis uint_nat)
qed

lemma unat_ucast_widen: "unat (ucast (b :: INT8U) :: INT16U) = unat b"
proof -
  have "unat b < 2 ^ 8"
    using unsigned_less [of b, where 'a = nat] by simp
  then have "unat b < 2 ^ 16"
    by simp
  then show ?thesis
    by (simp add: unsigned_ucast_eq take_bit_nat_eq_self)
qed

lemma ucast_buffer_bits: "bit (ucast (b :: INT8U) :: INT16U) n \<longleftrightarrow> n < 8 \<and> bit b n"
  by (auto simp add: bit_ucast_iff dest: bit_imp_le_length)

text \<open>Flags with a bit above the low eight never equal the buffer.\<close>

lemma tsiProcScan_high_posts:
  assumes "tsiProcScan h i channel s = Inr s'" and "2 ^ 8 \<le> unat (tsiSensorFlags s')"
  shows "uint (buffer (tsiBuffer s)) \<noteq> uint (tsiSensorFlags s')"
proof -
  have "unat (buffer (tsiBuffer s)) < 2 ^ 8"
    using unsigned_less [of "buffer (tsiBuffer s)", where 'a = nat] by simp
  then have ne: "unat (buffer (tsiBuffer s)) \<noteq> unat (tsiSensorFlags s')"
    using assms(2) by linarith
  show ?thesis
  proof
    assume "uint (buffer (tsiBuffer s)) = uint (tsiSensorFlags s')"
    then have "nat (uint (buffer (tsiBuffer s))) = nat (uint (tsiSensorFlags s'))"
      by simp
    then show False
      using ne by simp
  qed
qed

text \<open>
  Two calls in a row on one channel with the same count: while the flags after the first
  call fit in eight bits, the second call posts nothing and leaves the buffer alone.
\<close>

lemma tsiProcScan_twice_low:
  assumes "tsiProcScan h i channel s = Inr s1" and "tsiProcScan h i2 channel s1 = Inr s2"
    and "tsiCount h (snd i2) = tsiCount h (snd i)" and "unat (tsiSensorFlags s1) < 2 ^ 8"
  shows "tsiPosts (trace s2) = tsiPosts (trace s1) \<and> tsiBuffer s2 = tsiBuffer s1"
proof -
  have fl: "tsiSensorFlags s2 = tsiSensorFlags s1"
    using tsiProcScan_flags [OF assms(1)] tsiProcScan_flags [OF assms(2)] assms(3)
      tsiProcScan_frame [OF assms(1)]
    by (auto simp add: or.assoc and.assoc)
  have "uint (buffer (tsiBuffer s1)) = uint (tsiSensorFlags s1)"
    using tsiProcScan_buffer [OF assms(1)] uint_ucast_low [OF assms(4)]
    by (simp split: if_splits)
  then show ?thesis
    using tsiProcScan_unchanged [OF assms(2)] fl by (simp add: tsiPosts_def)
qed

text \<open>
  C2. When the flags differ from the buffer, the buffer should hold the flags after the
  call. On the example board, from the example state, a count above the threshold on
  channel 12 makes the flags \<^verbatim>\<open>0x1000\<close>; the call publishes, and the buffer holds 0.
\<close>

theorem tsiProcScan_publish_truncates:
  "map_sum id (\<lambda>s. (uint (tsiSensorFlags s), uint (buffer (tsiBuffer s)), tsiPosts (trace s)))
     (tsiProcScan board_ex scan_hi 12 state_ex) = Inr (0x1000, 0, 1)"
  by (simp add: tsi_run_defs tsi_ex_defs tsiPosts_def)

text \<open>
  C3. Periods that end with the same flags as the period before should post nothing. On
  the example board, with both pads read above the threshold in every period, the flags
  are \<^verbatim>\<open>0x1800\<close> after the second period and after the third, and the third period has
  posted again: three posts in three periods.
\<close>

theorem TSITask_reposts_same_flags:
  "map_sum id (\<lambda>s. (tsiSensorFlags s, tsiPosts (trace s)))
     (TSITask board_ex [scan_hi, scan_hi] state_ex) = Inr (0x1800, 2) \<and>
   map_sum id (\<lambda>s. (tsiSensorFlags s, tsiPosts (trace s)))
     (TSITask board_ex [scan_hi, scan_hi, scan_hi] state_ex) = Inr (0x1800, 3)"
  by (simp add: tsi_run_defs tsi_ex_defs tsiPosts_def)



lemma TSIPend_value:
  assumes "TSIPend h ticks tout s = Inr (v, e, s')"
  shows "v = ucast (buffer (tsiBuffer s'))"
  using assms by (auto simp add: TSIPend_def split: sum.splits prod.splits)

text \<open>
  C10. The buffer is eight bits wide and the flags are sixteen bits wide. A call of
  \<^verbatim>\<open>tsiProcScan\<close> that returns posts exactly when the eight-bit buffer, read as a
  number, differs from the sixteen-bit flags; when it publishes, the buffer holds the
  flags modulo \<open>2 ^ 8\<close>; flags of \<open>2 ^ 8\<close> or more are therefore published on every
  call. The value that \<^verbatim>\<open>TSIPend\<close> returns is the buffer, so none of its bits 8 to 15
  is ever set: the bit of a channel numbered 8 or more is not seen through
  \<^verbatim>\<open>TSIPend\<close>.
\<close>

theorem tsiBuffer_eight_bits:
  assumes "tsiProcScan h i channel s = Inr s'"
    and "TSIPend h ticks tout t = Inr (v, e, t')"
  shows "(tsiPosts (trace s') = tsiPosts (trace s) + 1 \<longleftrightarrow>
            uint (buffer (tsiBuffer s)) \<noteq> uint (tsiSensorFlags s')) \<and>
         (uint (buffer (tsiBuffer s)) \<noteq> uint (tsiSensorFlags s') \<longrightarrow>
            unat (buffer (tsiBuffer s')) = unat (tsiSensorFlags s') mod 2 ^ 8) \<and>
         (2 ^ 8 \<le> unat (tsiSensorFlags s') \<longrightarrow> tsiPosts (trace s') = tsiPosts (trace s) + 1) \<and>
         unat v = unat (buffer (tsiBuffer t')) \<and>
         (\<forall>n. 8 \<le> n \<longrightarrow> \<not> bit v n)"
proof (intro conjI impI allI)
  show "tsiPosts (trace s') = tsiPosts (trace s) + 1 \<longleftrightarrow>
          uint (buffer (tsiBuffer s)) \<noteq> uint (tsiSensorFlags s')"
    using tsiProcScan_trace [OF assms(1)] by (simp add: tsiPosts_def)
next
  assume "uint (buffer (tsiBuffer s)) \<noteq> uint (tsiSensorFlags s')"
  then show "unat (buffer (tsiBuffer s')) = unat (tsiSensorFlags s') mod 2 ^ 8"
    using tsiProcScan_buffer [OF assms(1)] by (simp add: unat_ucast_buffer)
next
  assume "2 ^ 8 \<le> unat (tsiSensorFlags s')"
  from tsiProcScan_high_posts [OF assms(1) this]
  show "tsiPosts (trace s') = tsiPosts (trace s) + 1"
    using tsiProcScan_trace [OF assms(1)] by (simp add: tsiPosts_def)
next
  show "unat v = unat (buffer (tsiBuffer t'))"
    using TSIPend_value [OF assms(2)] by (simp add: unat_ucast_widen)
next
  fix n :: nat assume "8 \<le> n"
  then show "\<not> bit v n"
    using TSIPend_value [OF assms(2)] by (simp add: ucast_buffer_bits)
qed

theorem tsiBuffer_eight_bits_witness:
  "map_sum id (\<lambda>s. (unat (tsiSensorFlags s), unat (buffer (tsiBuffer s)), tsiPosts (trace s)))
     (tsiProcScan board_ex scan_hi 12 state_ex) = Inr (4096, 4096 mod 2 ^ 8, 1) \<and>
   map_sum id (\<lambda>(v, e, t). (v, e, tsiSensorFlags t))
     (TSIPend board_ex [Some scan_hi] 5 state_ex) = Inr (0, OS_ERR_NONE, 0x1000) \<and>
   \<not> bit (0 :: INT16U) 12"
proof -
  obtain s' where h1: "tsiProcScan board_ex scan_hi 12 state_ex = Inr s'"
    by (simp add: tsi_run_defs tsi_ex_defs)
  obtain v e t' where h2: "TSIPend board_ex [Some scan_hi] 5 state_ex = Inr (v, e, t')"
    by (simp add: TSIPend_def tsiSemTake_def tsi_run_defs tsi_ex_defs)
  have c1: "map_sum id (\<lambda>s. (unat (tsiSensorFlags s), unat (buffer (tsiBuffer s)), tsiPosts (trace s)))
     (tsiProcScan board_ex scan_hi 12 state_ex) = Inr (4096, 4096 mod 2 ^ 8, 1)"
    by (simp add: tsi_run_defs tsi_ex_defs tsiPosts_def)
  have c2: "map_sum id (\<lambda>(v, e, t). (v, e, tsiSensorFlags t))
     (TSIPend board_ex [Some scan_hi] 5 state_ex) = Inr (0, OS_ERR_NONE, 0x1000)"
    by (simp add: TSIPend_def tsiSemTake_def tsi_run_defs tsi_ex_defs)
  from tsiBuffer_eight_bits [OF h1 h2] c1 c2 show ?thesis
    by simp
qed

subsection \<open>Pending on the buffer\<close>

lemma TSITask_period_posts:
  assumes "TSITask_period h i s = Inr s'"
  shows "(tsiPosts (trace s') = tsiPosts (trace s) \<and> tsiBuffer s' = tsiBuffer s) \<or>
         (tsiPosts (trace s') = tsiPosts (trace s) + 1 \<and>
          flag (tsiBuffer s') = (if flag (tsiBuffer s) = 0 then 1 else flag (tsiBuffer s)) \<and>
          buffer (tsiBuffer s') = ucast (tsiSensorFlags s'))"
proof (cases "tsiTaskState s = PROC1START2")
  case True
  from TSITask_period_S1 [OF assms True] obtain s2 where
    p: "tsiProcScan h i (BRD_PAD1_CH h)
          (s\<lparr> trace := trace s @ [TimeDly, StartScan (BRD_PAD1_CH h)] \<rparr>) = Inr s2"
    and s': "s' = s2\<lparr> trace := trace s2 @ [StartScan (BRD_PAD2_CH h)], tsiTaskState := PROC2START1 \<rparr>"
    by blast
  show ?thesis using tsiProcScan_posts [OF p] by (auto simp add: s' tsiPosts_def split: if_splits)
next
  case False
  show ?thesis
  proof (cases "tsiTaskState s = PROC2START1")
    case True
    from TSITask_period_S2 [OF assms True] obtain s2 where
      p: "tsiProcScan h i (BRD_PAD2_CH h)
            (s\<lparr> trace := trace s @ [TimeDly, StartScan (BRD_PAD1_CH h)] \<rparr>) = Inr s2"
      and s': "s' = s2\<lparr> trace := trace s2 @ [StartScan (BRD_PAD1_CH h)], tsiTaskState := PROC1START2 \<rparr>"
      by blast
    show ?thesis using tsiProcScan_posts [OF p] by (auto simp add: s' tsiPosts_def split: if_splits)
  next
    case F2: False
    show ?thesis using TSITask_period_other [OF assms False F2] by (simp add: tsiPosts_def)
  qed
qed

lemma TSITask_posts_mono:
  "TSITask h ins s = Inr s' \<Longrightarrow> tsiPosts (trace s) \<le> tsiPosts (trace s')"
proof (induction ins arbitrary: s)
  case Nil
  then show ?case by simp
next
  case (Cons i ins)
  from Cons.prems obtain s1 where
    p: "TSITask_period h i s = Inr s1" and r: "TSITask h ins s1 = Inr s'"
    by (auto split: sum.splits)
  from TSITask_period_posts [OF p] Cons.IH [OF r] show ?case
    by auto
qed

lemma OSSemPend_window:
  "TSITask h (tsiTickScans ts) s = Inr s1 \<Longrightarrow>
    \<exists>e s'. OSSemPend h ts s = Inr (e, s') \<and>
      (e = OS_ERR_TIMEOUT \<or> e = OS_ERR_NONE) \<and>
      (e = OS_ERR_TIMEOUT \<longleftrightarrow> flag (tsiBuffer s) = 0 \<and> tsiPosts (trace s1) = tsiPosts (trace s)) \<and>
      (e = OS_ERR_TIMEOUT \<longrightarrow> s' = s1 \<and> tsiBuffer s1 = tsiBuffer s) \<and>
      (e = OS_ERR_NONE \<longrightarrow>
         (\<exists>s2. s' = tsiSemTake s2 \<and> flag (tsiBuffer s2) \<noteq> 0 \<and>
            (flag (tsiBuffer s) \<noteq> 0 \<longrightarrow> s2 = s) \<and>
            (flag (tsiBuffer s) = 0 \<longrightarrow> tsiPosts (trace s2) = tsiPosts (trace s) + 1 \<and>
               buffer (tsiBuffer s2) = ucast (tsiSensorFlags s2))))"
proof (induction ts arbitrary: s)
  case Nil
  then show ?case by auto
next
  case (Cons t ts)
  show ?case
  proof (cases "flag (tsiBuffer s) \<noteq> 0")
    case True
    then show ?thesis by auto
  next
    case False
    then have f0: "flag (tsiBuffer s) = 0" by simp
    show ?thesis
    proof (cases t)
      case None
      with Cons.prems have "TSITask h (tsiTickScans ts) s = Inr s1" by simp
      from Cons.IH [OF this] show ?thesis using None f0 by simp
    next
      case (Some i)
      with Cons.prems obtain sa where
        p: "TSITask_period h i s = Inr sa" and r: "TSITask h (tsiTickScans ts) sa = Inr s1"
        by (auto split: sum.splits)
      have eq: "OSSemPend h (t # ts) s = OSSemPend h ts sa"
        using Some f0 p by simp
      from Cons.IH [OF r] obtain e s' where
        w: "OSSemPend h ts sa = Inr (e, s') \<and>
      (e = OS_ERR_TIMEOUT \<or> e = OS_ERR_NONE) \<and>
      (e = OS_ERR_TIMEOUT \<longleftrightarrow> flag (tsiBuffer sa) = 0 \<and> tsiPosts (trace s1) = tsiPosts (trace sa)) \<and>
      (e = OS_ERR_TIMEOUT \<longrightarrow> s' = s1 \<and> tsiBuffer s1 = tsiBuffer sa) \<and>
      (e = OS_ERR_NONE \<longrightarrow>
         (\<exists>s2. s' = tsiSemTake s2 \<and> flag (tsiBuffer s2) \<noteq> 0 \<and>
            (flag (tsiBuffer sa) \<noteq> 0 \<longrightarrow> s2 = sa) \<and>
            (flag (tsiBuffer sa) = 0 \<longrightarrow> tsiPosts (trace s2) = tsiPosts (trace sa) + 1 \<and>
               buffer (tsiBuffer s2) = ucast (tsiSensorFlags s2))))"
        by (elim exE) (rule that)
      note a = w [THEN conjunct1]
        and b = w [THEN conjunct2, THEN conjunct1]
        and c = w [THEN conjunct2, THEN conjunct2, THEN conjunct1]
        and d = w [THEN conjunct2, THEN conjunct2, THEN conjunct2, THEN conjunct1]
        and f = w [THEN conjunct2, THEN conjunct2, THEN conjunct2, THEN conjunct2]
      from TSITask_period_posts [OF p] show ?thesis
      proof
        assume q: "tsiPosts (trace sa) = tsiPosts (trace s) \<and> tsiBuffer sa = tsiBuffer s"
        show ?thesis
          unfolding eq using a b c d f q f0 by auto
      next
        assume q: "tsiPosts (trace sa) = tsiPosts (trace s) + 1 \<and>
          flag (tsiBuffer sa) = (if flag (tsiBuffer s) = 0 then 1 else flag (tsiBuffer s)) \<and>
          buffer (tsiBuffer sa) = ucast (tsiSensorFlags sa)"
        have m: "tsiPosts (trace sa) \<le> tsiPosts (trace s1)"
          by (rule TSITask_posts_mono [OF r])
        show ?thesis
          unfolding eq using a b c d f q f0 m by auto
      qed
    qed
  qed
qed

text \<open>
  The status of a pend. Let every period that the scanning task runs within the ticks of
  the timeout return. Then \<^verbatim>\<open>TSIPend\<close> returns, with the value of the buffer at that
  moment and with one of two statuses. The status is \<^verbatim>\<open>OS_ERR_TIMEOUT\<close> exactly when
  no notification was pending at the call and none of those periods posted one; the state
  is then the one the periods have left, and the buffer holds what it held at the call.
  The status is \<^verbatim>\<open>OS_ERR_NONE\<close> otherwise: a notification that was pending at the call
  is taken at once, and else the wait ends after the first period that posts, with the
  buffer holding the flags that this period published, cut to eight bits.
\<close>

theorem TSIPend_status:
  assumes "TSITask h (tsiTickScans (take (unat tout) ticks)) s = Inr s1"
  shows "\<exists>v e s'. TSIPend h ticks tout s = Inr (v, e, s') \<and>
      v = ucast (buffer (tsiBuffer s')) \<and>
      (e = OS_ERR_TIMEOUT \<or> e = OS_ERR_NONE) \<and>
      (e = OS_ERR_TIMEOUT \<longleftrightarrow> flag (tsiBuffer s) = 0 \<and> tsiPosts (trace s1) = tsiPosts (trace s)) \<and>
      (e = OS_ERR_TIMEOUT \<longrightarrow> s' = s1 \<and> buffer (tsiBuffer s') = buffer (tsiBuffer s)) \<and>
      (e = OS_ERR_NONE \<and> flag (tsiBuffer s) \<noteq> 0 \<longrightarrow> s' = tsiSemTake s) \<and>
      (e = OS_ERR_NONE \<and> flag (tsiBuffer s) = 0 \<longrightarrow>
         tsiPosts (trace s') = tsiPosts (trace s) + 1 \<and>
         buffer (tsiBuffer s') = ucast (tsiSensorFlags s'))"
proof -
  from OSSemPend_window [OF assms] obtain e s' where
    w: "OSSemPend h (take (unat tout) ticks) s = Inr (e, s') \<and>
      (e = OS_ERR_TIMEOUT \<or> e = OS_ERR_NONE) \<and>
      (e = OS_ERR_TIMEOUT \<longleftrightarrow> flag (tsiBuffer s) = 0 \<and> tsiPosts (trace s1) = tsiPosts (trace s)) \<and>
      (e = OS_ERR_TIMEOUT \<longrightarrow> s' = s1 \<and> tsiBuffer s1 = tsiBuffer s) \<and>
      (e = OS_ERR_NONE \<longrightarrow>
         (\<exists>s2. s' = tsiSemTake s2 \<and> flag (tsiBuffer s2) \<noteq> 0 \<and>
            (flag (tsiBuffer s) \<noteq> 0 \<longrightarrow> s2 = s) \<and>
            (flag (tsiBuffer s) = 0 \<longrightarrow> tsiPosts (trace s2) = tsiPosts (trace s) + 1 \<and>
               buffer (tsiBuffer s2) = ucast (tsiSensorFlags s2))))"
    by (elim exE) (rule that)
  note a = w [THEN conjunct1]
    and b = w [THEN conjunct2, THEN conjunct1]
    and c = w [THEN conjunct2, THEN conjunct2, THEN conjunct1]
    and d = w [THEN conjunct2, THEN conjunct2, THEN conjunct2, THEN conjunct1]
    and f = w [THEN conjunct2, THEN conjunct2, THEN conjunct2, THEN conjunct2]
  have p: "TSIPend h ticks tout s = Inr (ucast (buffer (tsiBuffer s')), e, s')"
    using a by (simp add: TSIPend_def)
  have g: "e = OS_ERR_TIMEOUT \<longrightarrow> s' = s1 \<and> buffer (tsiBuffer s') = buffer (tsiBuffer s)"
    using d by simp
  have k: "e = OS_ERR_NONE \<and> flag (tsiBuffer s) \<noteq> 0 \<longrightarrow> s' = tsiSemTake s"
    using f by blast
  have l: "e = OS_ERR_NONE \<and> flag (tsiBuffer s) = 0 \<longrightarrow>
         tsiPosts (trace s') = tsiPosts (trace s) + 1 \<and>
         buffer (tsiBuffer s') = ucast (tsiSensorFlags s')"
  proof
    assume "e = OS_ERR_NONE \<and> flag (tsiBuffer s) = 0"
    with f obtain s2 where "s' = tsiSemTake s2"
      and "tsiPosts (trace s2) = tsiPosts (trace s) + 1"
      and "buffer (tsiBuffer s2) = ucast (tsiSensorFlags s2)"
      by auto
    then show "tsiPosts (trace s') = tsiPosts (trace s) + 1 \<and>
         buffer (tsiBuffer s') = ucast (tsiSensorFlags s')"
      by (simp add: tsiSemTake_def)
  qed
  from p b c g k l show ?thesis
    by blast
qed


theorem TSIPend_status_witness:
  "map_sum id (\<lambda>(v, e, t). (v, e, buffer (tsiBuffer t), flag (tsiBuffer t)))
     (TSIPend board_lo [None, Some scan_hi, None] 10 state_ex) = Inr (1, OS_ERR_NONE, 1, 0) \<and>
   map_sum id (\<lambda>(v, e, t). (v, e, buffer (tsiBuffer t), flag (tsiBuffer t)))
     (TSIPend board_lo [None, Some scan_lo, None] 10 state_ex) = Inr (0, OS_ERR_TIMEOUT, 0, 0) \<and>
   map_sum id (\<lambda>(v, e, t). (v, e, buffer (tsiBuffer t), flag (tsiBuffer t)))
     (TSIPend board_lo [None, Some scan_lo, None] 10
        (state_ex\<lparr> tsiSensorFlags := 1, tsiBuffer := \<lparr> buffer = 1, flag = 1 \<rparr> \<rparr>)) =
       Inr (1, OS_ERR_NONE, 1, 0)"
proof -
  obtain s1 where h1:
    "TSITask board_lo (tsiTickScans (take (unat (10 :: INT16U)) [None, Some scan_hi, None]))
       state_ex = Inr s1"
    by (simp add: tsi_run_defs tsi_ex_defs)
  obtain s2 where h2:
    "TSITask board_lo (tsiTickScans (take (unat (10 :: INT16U)) [None, Some scan_lo, None]))
       state_ex = Inr s2"
    by (simp add: tsi_run_defs tsi_ex_defs)
  obtain s3 where h3:
    "TSITask board_lo (tsiTickScans (take (unat (10 :: INT16U)) [None, Some scan_lo, None]))
       (state_ex\<lparr> tsiSensorFlags := 1, tsiBuffer := \<lparr> buffer = 1, flag = 1 \<rparr> \<rparr>) = Inr s3"
    by (simp add: tsi_run_defs tsi_ex_defs)
  have c1: "map_sum id (\<lambda>(v, e, t). (v, e, buffer (tsiBuffer t), flag (tsiBuffer t)))
     (TSIPend board_lo [None, Some scan_hi, None] 10 state_ex) = Inr (1, OS_ERR_NONE, 1, 0)"
    by (simp add: TSIPend_def tsiSemTake_def tsi_run_defs tsi_ex_defs)
  have c2: "map_sum id (\<lambda>(v, e, t). (v, e, buffer (tsiBuffer t), flag (tsiBuffer t)))
     (TSIPend board_lo [None, Some scan_lo, None] 10 state_ex) = Inr (0, OS_ERR_TIMEOUT, 0, 0)"
    by (simp add: TSIPend_def tsiSemTake_def tsi_run_defs tsi_ex_defs)
  have c3: "map_sum id (\<lambda>(v, e, t). (v, e, buffer (tsiBuffer t), flag (tsiBuffer t)))
     (TSIPend board_lo [None, Some scan_lo, None] 10
        (state_ex\<lparr> tsiSensorFlags := 1, tsiBuffer := \<lparr> buffer = 1, flag = 1 \<rparr> \<rparr>)) =
       Inr (1, OS_ERR_NONE, 1, 0)"
    by (simp add: TSIPend_def tsiSemTake_def tsi_run_defs tsi_ex_defs)
  from TSIPend_status [OF h1] TSIPend_status [OF h2] TSIPend_status [OF h3] c1 c2 c3
  show ?thesis
    by simp
qed

text \<open>
  C7. A pend within whose timeout the bitmask does not change should return the timeout
  status. On the example board, with both pads read above the threshold in every period,
  a consumer pends three times, the scanning task running one period during each pend.
  After the second pend the flags are \<^verbatim>\<open>0x1800\<close>, the buffer is \<^verbatim>\<open>0x00\<close> and no
  notification is pending. During the third pend the flags and the buffer stay as they
  are, and still the pend returns \<^verbatim>\<open>OS_ERR_NONE\<close>, with the value 0: the period has
  posted again, because the eight-bit buffer never equals the flags.
\<close>

theorem TSIPend_succeeds_without_change:
  "map_sum id (\<lambda>(rs, s). (rs, tsiSensorFlags s, buffer (tsiBuffer s), flag (tsiBuffer s)))
     (TSIPends board_ex [([Some scan_hi], 5), ([Some scan_hi], 5)] state_ex) =
       Inr ([(0, OS_ERR_NONE), (0, OS_ERR_NONE)], 0x1800, 0, 0) \<and>
   map_sum id (\<lambda>(rs, s). (rs, tsiSensorFlags s, buffer (tsiBuffer s), flag (tsiBuffer s)))
     (TSIPends board_ex [([Some scan_hi], 5), ([Some scan_hi], 5), ([Some scan_hi], 5)] state_ex) =
       Inr ([(0, OS_ERR_NONE), (0, OS_ERR_NONE), (0, OS_ERR_NONE)], 0x1800, 0, 0)"
  by (simp add: TSIPend_def tsiSemTake_def tsi_run_defs tsi_ex_defs)

subsection \<open>Initialisation\<close>

lemma tsiErrorTrap_Some: "tsiErrorTrap e = Some u \<Longrightarrow> e = OS_ERR_NONE"
proof (rule tsiErrorTrap.raw_induct [where P = "\<lambda>e u. e = OS_ERR_NONE"])
  fix trap :: "OS_ERR \<Rightarrow> unit option" and x :: OS_ERR and y :: unit
  assume ih: "\<And>x y. trap x = Some y \<Longrightarrow> x = OS_ERR_NONE"
    and "(if x \<noteq> OS_ERR_NONE then trap x else Some ()) = Some y"
  then show "x = OS_ERR_NONE"
    by (cases "x = OS_ERR_NONE") auto
qed

text \<open>The error trap is left exactly when the status is \<^verbatim>\<open>OS_ERR_NONE\<close>.\<close>

lemma tsiErrorTrap_eq: "tsiErrorTrap e = (if e = OS_ERR_NONE then Some () else None)"
proof (cases "e = OS_ERR_NONE")
  case True
  then show ?thesis by (simp add: tsiErrorTrap.simps)
next
  case False
  then have "tsiErrorTrap e = None"
    using tsiErrorTrap_Some [of e] by (cases "tsiErrorTrap e") auto
  with False show ?thesis by simp
qed

text \<open>When the creation of the task fails, \<^verbatim>\<open>TSIInit\<close> does not return.\<close>

lemma TSIInit_task_failure:
  assumes "task_err \<noteq> OS_ERR_NONE"
  shows "\<exists>e. TSIInit h i1 i2 sem_err task_err s = Inl e"
  using assms
  by (simp add: TSIInit_def Let_def tsiErrorTrap_eq split: sum.splits)

lemma TSIInit_task_failure_ex:
  "TSIInit board_ex scan_lo scan_lo OS_ERR_NONE OS_ERR_OTHER tsi_static_init = Inl ErrorTrap"
  by (simp add: TSIInit_def TSIChCalibration_def Let_def tsiErrorTrap_eq tsi_ex_defs)

text \<open>
  C9. A failure to create the task or a resource of the scheduler should stop
  \<^verbatim>\<open>TSIInit\<close>. The status of \<^verbatim>\<open>OSSemCreate\<close> is overwritten by the status of
  \<^verbatim>\<open>OSTaskCreate\<close> before the error trap looks at it: on the example board, with both
  calibration scans completing, a failed creation of the semaphore and a successful
  creation of the task, \<^verbatim>\<open>TSIInit\<close> returns normally.
\<close>

theorem TSIInit_ignores_semaphore_failure:
  "map_sum id (\<lambda>s. (tsiBuffer s, trace s))
     (TSIInit board_ex scan_lo scan_lo OS_ERR_OTHER OS_ERR_NONE tsi_static_init) =
       Inr (\<lparr> buffer = 0, flag = 0 \<rparr>, [StartScan 12, StartScan 11])"
  by (simp add: TSIInit_def TSIChCalibration_def Let_def tsiErrorTrap_eq tsi_ex_defs)

end
